theory Spec2Isabelle
  imports Complex_Main
begin

text \<open>
  A shallow embedding of the document review pipeline of the ADGM corporate agent: paragraph
  extraction and annotation writing (docx_utils.py), the retrieval index (rag.py), the rule
  engine and the grounded reviewer (checker.py), and process inference and the analysis run
  (app.py). Each function of the sources is a function here under its own name; what a
  function raises is the left summand of its result. The libraries the sources call (the
  document library, the sentence encoder, the vector index, the chat completion service, the
  JSON parser) are taken by their documented behaviour or as parameters, as said where they
  first appear.
\<close>

section \<open>Python strings\<close>

text \<open>
  A Python \<^verbatim>\<open>str\<close> is modelled as a HOL string whose characters are the code points
  0 to 255 (Latin-1). The character classes below are Python's on that range:
  \<^verbatim>\<open>str.isspace\<close> (used by \<^verbatim>\<open>strip()\<close> and by the regular expression \<^verbatim>\<open>\s\<close>), the word
  characters of \<^verbatim>\<open>\w\<close> and \<^verbatim>\<open>\b\<close>, and \<^verbatim>\<open>str.lower\<close>.
\<close>

definition is_space :: "char \<Rightarrow> bool" where
  "is_space c =
     (let n = (of_char c :: nat)
      in (9 \<le> n \<and> n \<le> 13) \<or> (28 \<le> n \<and> n \<le> 32) \<or> n = 133 \<or> n = 160)"

definition is_word :: "char \<Rightarrow> bool" where
  "is_word c =
     (let n = (of_char c :: nat)
      in (48 \<le> n \<and> n \<le> 57) \<or> (65 \<le> n \<and> n \<le> 90) \<or> n = 95 \<or> (97 \<le> n \<and> n \<le> 122) \<or>
         n = 170 \<or> n = 178 \<or> n = 179 \<or> n = 181 \<or> n = 185 \<or> n = 186 \<or>
         (188 \<le> n \<and> n \<le> 190) \<or> (192 \<le> n \<and> n \<le> 214) \<or> (216 \<le> n \<and> n \<le> 246) \<or>
         248 \<le> n)"

definition lower_char :: "char \<Rightarrow> char" where
  "lower_char c =
     (let n = (of_char c :: nat)
      in if (65 \<le> n \<and> n \<le> 90) \<or> (192 \<le> n \<and> n \<le> 214) \<or> (216 \<le> n \<and> n \<le> 222)
         then char_of (n + 32) else c)"

definition lower :: "string \<Rightarrow> string" where
  "lower s = map lower_char s"

text \<open>\<^verbatim>\<open>s.strip()\<close> and \<^verbatim>\<open>s.strip(chars)\<close>\<close>

definition strip :: "string \<Rightarrow> string" where
  "strip s = rev (dropWhile is_space (rev (dropWhile is_space s)))"

definition strip_chars :: "string \<Rightarrow> string \<Rightarrow> string" where
  "strip_chars cs s = rev (dropWhile (\<lambda>c. c \<in> set cs) (rev (dropWhile (\<lambda>c. c \<in> set cs) s)))"

text \<open>\<^verbatim>\<open>sep.join(parts)\<close>\<close>

fun join :: "string \<Rightarrow> string list \<Rightarrow> string" where
  "join sep [] = []"
| "join sep [x] = x"
| "join sep (x # y # zs) = x @ sep @ join sep (y # zs)"

text \<open>\<^verbatim>\<open>needle in haystack\<close> and \<^verbatim>\<open>s.endswith(suffix)\<close>\<close>

fun starts_with :: "string \<Rightarrow> string \<Rightarrow> bool" where
  "starts_with [] s = True"
| "starts_with (p # ps) [] = False"
| "starts_with (p # ps) (c # cs) = (p = c \<and> starts_with ps cs)"

fun contains :: "string \<Rightarrow> string \<Rightarrow> bool" where
  "contains needle [] = starts_with needle []"
| "contains needle (c # cs) = (starts_with needle (c # cs) \<or> contains needle cs)"

definition ends_with :: "string \<Rightarrow> string \<Rightarrow> bool" where
  "ends_with suffix s = starts_with (rev suffix) (rev s)"

text \<open>\<^verbatim>\<open>str(n)\<close> for an integer: its decimal digits, with a sign when negative.\<close>

fun str_nat :: "nat \<Rightarrow> string" where
  "str_nat n = (if n < 10 then [char_of (48 + n)] else str_nat (n div 10) @ [char_of (48 + n mod 10)])"

definition str_int :: "int \<Rightarrow> string" where
  "str_int i = (if i < 0 then CHR ''-'' # str_nat (nat (- i)) else str_nat (nat i))"

section \<open>Regular expressions (the fragment checker.py uses)\<close>

text \<open>
  The pattern tables of checker.py use literal characters, the word boundary \<^verbatim>\<open>\b\<close>, the
  whitespace run \<^verbatim>\<open>\s+\<close> and, once joined, the alternation bar. \<open>re_search\<close> is the truth
  value of \<^verbatim>\<open>re.search(pattern, text, re.IGNORECASE)\<close> for patterns of that fragment:
  whether some alternative matches at some position of the text.
\<close>

abbreviation backslash :: char where
  "backslash \<equiv> CHR 0x5C"

datatype atom = Ch char | WordB | Spaces1

fun parse_atoms :: "string \<Rightarrow> atom list" where
  "parse_atoms [] = []"
| "parse_atoms [c] = [Ch c]"
| "parse_atoms [c, d] =
     (if c = backslash \<and> d = CHR ''b'' then [WordB] else [Ch c, Ch d])"
| "parse_atoms (c # d # e # r) =
     (if c = backslash \<and> d = CHR ''b'' then WordB # parse_atoms (e # r)
      else if c = backslash \<and> d = CHR ''s'' \<and> e = CHR ''+'' then Spaces1 # parse_atoms r
      else Ch c # parse_atoms (d # e # r))"

fun split_on :: "char \<Rightarrow> string \<Rightarrow> string list" where
  "split_on sep [] = [[]]"
| "split_on sep (c # cs) =
     (if c = sep then [] # split_on sep cs
      else (case split_on sep cs of [] \<Rightarrow> [[c]] | p # ps \<Rightarrow> (c # p) # ps))"

definition opt_word :: "char option \<Rightarrow> bool" where
  "opt_word oc = (case oc of None \<Rightarrow> False | Some c \<Rightarrow> is_word c)"

definition at_boundary :: "char option \<Rightarrow> string \<Rightarrow> bool" where
  "at_boundary prev s = (opt_word prev \<noteq> opt_word (case s of [] \<Rightarrow> None | c # _ \<Rightarrow> Some c))"

text \<open>
  \<open>matches_here p prev s\<close>: the atoms \<open>p\<close> match a prefix of \<open>s\<close>, where \<open>prev\<close> is the
  character just before \<open>s\<close> in the text (none at the start of the text).
\<close>

fun matches_here :: "atom list \<Rightarrow> char option \<Rightarrow> string \<Rightarrow> bool" where
  "matches_here [] prev s = True"
| "matches_here (Ch c # p) prev [] = False"
| "matches_here (Ch c # p) prev (x # xs) =
     (lower_char x = lower_char c \<and> matches_here p (Some x) xs)"
| "matches_here (WordB # p) prev s = (at_boundary prev s \<and> matches_here p prev s)"
| "matches_here (Spaces1 # p) prev [] = False"
| "matches_here (Spaces1 # p) prev (x # xs) =
     (is_space x \<and> (matches_here (Spaces1 # p) (Some x) xs \<or> matches_here p (Some x) xs))"

fun search_from :: "atom list list \<Rightarrow> char option \<Rightarrow> string \<Rightarrow> bool" where
  "search_from alts prev [] = list_ex (\<lambda>p. matches_here p prev []) alts"
| "search_from alts prev (x # xs) =
     (list_ex (\<lambda>p. matches_here p prev (x # xs)) alts \<or> search_from alts (Some x) xs)"

definition re_search :: "string \<Rightarrow> string \<Rightarrow> bool" where
  "re_search pattern text = search_from (map parse_atoms (split_on CHR ''|'' pattern)) None text"

section \<open>Python values and dictionaries\<close>

text \<open>
  The values \<^verbatim>\<open>json.loads\<close> produces and the findings carry: \<^verbatim>\<open>None\<close>, booleans,
  integers, floats, strings, lists and dictionaries. The only thing the program does with a
  number is to compare it with a paragraph count, so a float is kept as a real number (an
  infinite one compares like a very large one, and one that is not a number like one within
  range). A dictionary keeps its keys in insertion order; assigning to a present key
  replaces its value in place.
\<close>

datatype json = JNull | JBool bool | JInt int | JFloat real | JStr string | JList "json list"
  | JObj "(string \<times> json) list"

type_synonym pydict = "(string \<times> json) list"

text \<open>\<^verbatim>\<open>d.get(k)\<close>: the value, or \<^verbatim>\<open>None\<close> for a missing key.\<close>

definition dict_get :: "pydict \<Rightarrow> string \<Rightarrow> json" where
  "dict_get d k = (case map_of d k of None \<Rightarrow> JNull | Some v \<Rightarrow> v)"

text \<open>\<^verbatim>\<open>d[k] = v\<close>\<close>

fun dict_set :: "pydict \<Rightarrow> string \<Rightarrow> json \<Rightarrow> pydict" where
  "dict_set [] k v = [(k, v)]"
| "dict_set ((k', v') # d) k v = (if k' = k then (k, v) # d else (k', v') # dict_set d k v)"

text \<open>An exception: its class name and its message, \<^verbatim>\<open>str(e)\<close>.\<close>

datatype exn = Raise string string

fun str_exn :: "exn \<Rightarrow> string" where
  "str_exn (Raise cls msg) = msg"

section \<open>Pattern tables (checker.py)\<close>

abbreviation wb :: string where
  "wb \<equiv> [backslash, CHR ''b'']"

definition AMBIGUOUS_TERMS :: "string list" where
  "AMBIGUOUS_TERMS =
     [wb @ ''may'' @ wb,
      wb @ ''possible'' @ wb,
      wb @ ''subject to'' @ wb,
      wb @ ''as appropriate'' @ wb,
      wb @ ''where practicable'' @ wb]"

definition JURISDICTION_PATTERNS :: "string list" where
  "JURISDICTION_PATTERNS =
     [''ADGM'',
      ''Abu Dhabi Global Market'',
      ''ADGM Courts'',
      wb @ ''Abu Dhabi'' @ wb]"

definition FEDERAL_COURTS_PATTERNS :: "string list" where
  "FEDERAL_COURTS_PATTERNS =
     [''UAE Federal Courts'',
      ''Federal Courts of the UAE'',
      wb @ ''UAE Courts'' @ wb]"

definition SIGNATURE_PATTERNS :: "string list" where
  "SIGNATURE_PATTERNS =
     [''Signature:'',
      ''Signed by'',
      ''Signatory'',
      ''Signature'' @ [backslash, CHR ''s'', CHR ''+''] @ ''of'']"

section \<open>Retrieval index (rag.py)\<close>

text \<open>
  The sentence encoder and the FAISS flat index are external. The model keeps the encoder as
  a function from a text to its embedding, and the flat L2 index as the list of the vectors
  added to it together with its metric. A search of the flat index ranks every stored vector
  by its distance to the query, smallest first, returns \<open>k\<close> labels and \<open>k\<close> distances, and
  fills the places beyond the stored vectors with the label \<open>-1\<close>; it refuses \<open>k \<le> 0\<close>.
  Distances are values of any linear order. \<^verbatim>\<open>self.embeddings\<close> holds the same vectors as
  the index and is read nowhere, so it has no field here; \<^verbatim>\<open>index_path\<close> is never given, so
  nothing is written to disk.
\<close>

record ('v, 'd) rag_index =
  model :: "string \<Rightarrow> 'v"
  l2 :: "'v \<Rightarrow> 'v \<Rightarrow> 'd"
  fill :: 'd
  index :: "'v list option"
  texts :: "string list"

definition index_search ::
  "('v \<Rightarrow> 'v \<Rightarrow> 'd::linorder) \<Rightarrow> 'd \<Rightarrow> 'v list \<Rightarrow> 'v \<Rightarrow> int \<Rightarrow> exn + (int list \<times> 'd list)" where
  "index_search metric filler vectors q k =
     (if k \<le> 0 then Inl (Raise ''AssertionError'' [])
      else
        (let scored = zip (map int [0..<length vectors]) (map (metric q) vectors);
             best = take (nat k) (sort_key snd scored);
             pad = nat k - length best
         in Inr (map fst best @ replicate pad (- 1), map snd best @ replicate pad filler)))"

text \<open>\<^verbatim>\<open>raw.split("\n\n")\<close>\<close>

fun cons_first :: "char \<Rightarrow> string list \<Rightarrow> string list" where
  "cons_first c [] = [[c]]"
| "cons_first c (p # ps) = (c # p) # ps"

fun split_blank :: "string \<Rightarrow> string list" where
  "split_blank [] = [[]]"
| "split_blank [c] = [[c]]"
| "split_blank (c # d # r) =
     (if c = CHR 0x0A \<and> d = CHR 0x0A then [] # split_blank r
      else cons_first c (split_blank (d # r)))"

definition file_chunks :: "string \<Rightarrow> string list" where
  "file_chunks raw = map strip (filter (\<lambda>chunk. strip chunk \<noteq> []) (split_blank raw))"

text \<open>
  \<open>build_from_folder self folder\<close>: \<open>folder\<close> lists the files of the folder, each with its
  name and its content, in the order \<^verbatim>\<open>os.listdir\<close> gives them.
\<close>

fun folder_texts :: "(string \<times> string) list \<Rightarrow> string list" where
  "folder_texts [] = []"
| "folder_texts ((fname, raw) # fs) =
     (if \<not> ends_with ''.txt'' (lower fname) then folder_texts fs
      else map (\<lambda>c. ''['' @ fname @ ''] '' @ c) (file_chunks raw) @ folder_texts fs)"

definition build_from_folder ::
  "('v, 'd) rag_index \<Rightarrow> (string \<times> string) list \<Rightarrow> exn + ('v, 'd) rag_index" where
  "build_from_folder self folder =
     (let txts = folder_texts folder
      in if txts = [] then Inl (Raise ''ValueError'' ''No reference text files found in folder.'')
         else Inr (self\<lparr>texts := txts, index := Some (map (model self) txts)\<rparr>))"

text \<open>The loop of \<open>retrieve\<close> over \<^verbatim>\<open>zip(I[0], D[0])\<close>.\<close>

fun collect_hits :: "string list \<Rightarrow> (int \<times> 'd) list \<Rightarrow> (string \<times> 'd) list" where
  "collect_hits txts [] = []"
| "collect_hits txts ((i, distance) # rest) =
     (if i < 0 \<or> i \<ge> int (length txts) then collect_hits txts rest
      else (txts ! nat i, distance) # collect_hits txts rest)"

definition retrieve :: "('v, 'd::linorder) rag_index \<Rightarrow> string \<Rightarrow> int \<Rightarrow> exn + (string \<times> 'd) list" where
  "retrieve self query k =
     (let q_emb = model self query
      in case index self of
           None \<Rightarrow> Inl (Raise ''AttributeError''
                     ([CHR 0x27] @ ''NoneType'' @ [CHR 0x27] @ '' object has no attribute '' @
                      [CHR 0x27] @ ''search'' @ [CHR 0x27]))
         | Some vectors \<Rightarrow>
             (case index_search (l2 self) (fill self) vectors q_emb k of
                Inl e \<Rightarrow> Inl e
              | Inr (I, D) \<Rightarrow> Inr (collect_hits (texts self) (zip I D))))"

section \<open>Rule engine and grounded reviewer (checker.py)\<close>

definition federal_finding :: "int \<Rightarrow> pydict" where
  "federal_finding idx =
     [(''document_index_paragraph'', JInt idx),
      (''issue'', JStr ''References UAE Federal Courts instead of ADGM''),
      (''section'', JStr (''Paragraph '' @ str_int idx)),
      (''severity'', JStr ''High''),
      (''suggestion'', JStr ''Replace references to UAE Federal Courts with ADGM Courts (per ADGM Companies Regulations).'')]"

text \<open>
  The issue text of an ambiguous-language finding shows \<^verbatim>\<open>pattern.strip('\\b')\<close>: the pattern
  without the backslashes and the letters b at its two ends. (The expression stands inside a
  format string; Python accepts a backslash there from version 3.12 on.)
\<close>

definition ambiguous_finding :: "int \<Rightarrow> string \<Rightarrow> pydict" where
  "ambiguous_finding idx pattern =
     [(''document_index_paragraph'', JInt idx),
      (''issue'', JStr (''Ambiguous language: contains '' @ [CHR 0x27] @
                         strip_chars [backslash, CHR ''b''] pattern @ [CHR 0x27])),
      (''section'', JStr (''Paragraph '' @ str_int idx)),
      (''severity'', JStr ''Medium''),
      (''suggestion'', JStr ''Consider clarifying to explicit obligation or remove discretionary terms.'')]"

fun ambiguous_checks :: "int \<Rightarrow> string \<Rightarrow> string list \<Rightarrow> pydict list" where
  "ambiguous_checks idx text [] = []"
| "ambiguous_checks idx text (pattern # rest) =
     (if re_search pattern text then ambiguous_finding idx pattern # ambiguous_checks idx text rest
      else ambiguous_checks idx text rest)"

fun heuristic_checks :: "(int \<times> string) list \<Rightarrow> pydict list" where
  "heuristic_checks [] = []"
| "heuristic_checks ((idx, text) # paragraphs) =
     (if re_search (join ''|'' FEDERAL_COURTS_PATTERNS) text then [federal_finding idx] else []) @
     ambiguous_checks idx text AMBIGUOUS_TERMS @
     heuristic_checks paragraphs"

definition no_signature_finding :: pydict where
  "no_signature_finding =
     [(''document_index_paragraph'', JNull),
      (''issue'', JStr ''No signatory or signature block detected''),
      (''section'', JStr ''End of document''),
      (''severity'', JStr ''High''),
      (''suggestion'', JStr ''Add a clearly labelled signature block for authorized signatories with name, title and date.'')]"

definition no_jurisdiction_finding :: pydict where
  "no_jurisdiction_finding =
     [(''document_index_paragraph'', JNull),
      (''issue'', JStr ''Jurisdiction not specified as ADGM''),
      (''section'', JStr ''Governing Law / Jurisdiction clause''),
      (''severity'', JStr ''High''),
      (''suggestion'', JStr ''Set governing law and jurisdiction to ADGM and ADGM Courts.'')]"

definition document_level_checks :: "(int \<times> string) list \<Rightarrow> pydict list" where
  "document_level_checks paragraphs =
     (let combined_text = join [CHR 0x0A] (map snd paragraphs)
      in (if \<not> re_search (join ''|'' SIGNATURE_PATTERNS) combined_text
          then [no_signature_finding] else []) @
         (if \<not> re_search (join ''|'' JURISDICTION_PATTERNS) combined_text
          then [no_jurisdiction_finding] else []))"

text \<open>
  The reasoning capability: the credential read from the environment at import, the chat
  completion request (its reply's message content, or the exception it raises) and
  \<^verbatim>\<open>json.loads\<close> (the value, or none when it raises).
\<close>

record llm_env =
  OPENAI_API_KEY :: "string option"
  chat_completion :: "string \<Rightarrow> exn + string"
  json_loads :: "string \<Rightarrow> json option"

definition call_llm :: "llm_env \<Rightarrow> string \<Rightarrow> exn + string" where
  "call_llm E prompt =
     (if OPENAI_API_KEY E = None \<or> OPENAI_API_KEY E = Some []
      then Inl (Raise ''RuntimeError'' ''OPENAI_API_KEY not set; LLM call unavailable.'')
      else (case chat_completion E prompt of
              Inl e \<Rightarrow> Inl e
            | Inr content \<Rightarrow> Inr (strip content)))"

definition review_prompt :: "string \<Rightarrow> string \<Rightarrow> string \<Rightarrow> string" where
  "review_prompt doc_name text context =
     ''You are a legal assistant specialized in Abu Dhabi Global Market (ADGM) company regulations.\<newline>'' @
     ''Review the following paragraph from a '' @ doc_name @ '':\<newline>'' @
     ''---PARAGRAPH---\<newline>'' @
     text @ ''\<newline>'' @
     ''---END PARAGRAPH---\<newline>'' @
     ''\<newline>'' @
     ''Here are relevant ADGM references retrieved:\<newline>'' @
     context @ ''\<newline>'' @
     ''\<newline>'' @
     ''Please:\<newline>'' @
     ''1) Identify whether this paragraph violates ADGM practice or contains red flags (jurisdiction, missing clause, ambiguous language).\<newline>'' @
     ''2) If an issue found, produce a short suggestion and cite the reference using the format [source: filename]. \<newline>'' @
     ''3) Return JSON list of objects with keys: paragraph_index, issue, severity, suggestion.\<newline>''"

text \<open>
  The inner \<^verbatim>\<open>try\<close> of \<open>llm_review\<close>: parse the reply, write the paragraph's index into
  every element, and hand the elements over. Subscript assignment raises on anything but a
  dictionary, and iteration raises on a number, a boolean and \<^verbatim>\<open>None\<close>; iterating a
  dictionary or a string walks its keys or characters, which are strings. Any raise gives
  no result here, and the caller then records the reply as not being JSON.
\<close>

fun attach_index :: "int \<Rightarrow> json list \<Rightarrow> pydict list option" where
  "attach_index idx [] = Some []"
| "attach_index idx (JObj d # rest) =
     (case attach_index idx rest of
        None \<Rightarrow> None
      | Some fs \<Rightarrow> Some (dict_set d ''document_paragraph_idx'' (JInt idx) # fs))"
| "attach_index idx (_ # rest) = None"

definition parse_reply :: "llm_env \<Rightarrow> string \<Rightarrow> int \<Rightarrow> pydict list option" where
  "parse_reply E out idx =
     (case json_loads E out of
        None \<Rightarrow> None
      | Some (JList items) \<Rightarrow> attach_index idx items
      | Some (JObj d) \<Rightarrow> (if d = [] then Some [] else None)
      | Some (JStr s) \<Rightarrow> (if s = [] then Some [] else None)
      | Some _ \<Rightarrow> None)"

definition non_json_finding :: "int \<Rightarrow> string \<Rightarrow> pydict" where
  "non_json_finding idx out =
     [(''document_paragraph_idx'', JInt idx),
      (''issue'', JStr ''LLM review returned non-JSON output''),
      (''severity'', JStr ''Low''),
      (''suggestion'', JStr (take 400 out))]"

definition call_failed_finding :: "int \<Rightarrow> exn \<Rightarrow> pydict" where
  "call_failed_finding idx e =
     [(''document_paragraph_idx'', JInt idx),
      (''issue'', JStr ''LLM call failed''),
      (''severity'', JStr ''Low''),
      (''suggestion'', JStr (str_exn e))]"

text \<open>
  What the run does to the outside is kept in a log: each call of \<open>llm_review\<close> by the
  orchestrator, and each call of \<open>call_llm\<close> with its prompt.
\<close>

datatype event = ReviewerInvoked string | LLMCall string

text \<open>
  \<open>llm_review\<close>, with the list of issues and the log (\<open>trace\<close>) built so far. The retrieval stands
  outside the \<^verbatim>\<open>try\<close>: an exception of it leaves the function.
\<close>

fun llm_review_loop ::
  "llm_env \<Rightarrow> (int \<times> string) list \<Rightarrow> ('v, 'd::linorder) rag_index \<Rightarrow> string \<Rightarrow>
   pydict list \<Rightarrow> event list \<Rightarrow> (exn + pydict list) \<times> event list" where
  "llm_review_loop E [] rag doc_name issues trace = (Inr issues, trace)"
| "llm_review_loop E ((idx, text) # paragraphs) rag doc_name issues trace =
     (if re_search (join ''|'' (AMBIGUOUS_TERMS @ FEDERAL_COURTS_PATTERNS @ SIGNATURE_PATTERNS)) text
      then
        (case retrieve rag text 3 of
           Inl e \<Rightarrow> (Inl e, trace)
         | Inr retrieved \<Rightarrow>
             (let context = join [CHR 0x0A, CHR 0x0A] (map fst retrieved);
                  prompt = review_prompt doc_name text context
              in case call_llm E prompt of
                   Inl e \<Rightarrow>
                     llm_review_loop E paragraphs rag doc_name
                       (issues @ [call_failed_finding idx e]) (trace @ [LLMCall prompt])
                 | Inr out \<Rightarrow>
                     (case parse_reply E out idx of
                        None \<Rightarrow>
                          llm_review_loop E paragraphs rag doc_name
                            (issues @ [non_json_finding idx out]) (trace @ [LLMCall prompt])
                      | Some parsed \<Rightarrow>
                          llm_review_loop E paragraphs rag doc_name
                            (issues @ parsed) (trace @ [LLMCall prompt]))))
      else llm_review_loop E paragraphs rag doc_name issues trace)"

definition llm_review ::
  "llm_env \<Rightarrow> (int \<times> string) list \<Rightarrow> ('v, 'd::linorder) rag_index \<Rightarrow> string \<Rightarrow>
   (exn + pydict list) \<times> event list" where
  "llm_review E paragraphs rag doc_name = llm_review_loop E paragraphs rag doc_name [] []"

section \<open>Process inference (app.py)\<close>

text \<open>
  The checklist table is loaded from \<^verbatim>\<open>checklist.json\<close> at start-up; it maps a process
  name to its list of required document-type labels. It is a parameter of the model.
\<close>

type_synonym checklists = "string \<rightharpoonup> string list"

record process_info =
  process :: string
  documents_uploaded :: nat
  required_documents :: "nat option"
  missing_documents :: "string list"

text \<open>\<^verbatim>\<open>CHECKLISTS.get("Company Incorporation", [])\<close>\<close>

definition incorporation_list :: "checklists \<Rightarrow> string list" where
  "incorporation_list CHECKLISTS =
     (case CHECKLISTS ''Company Incorporation'' of None \<Rightarrow> [] | Some r \<Rightarrow> r)"

text \<open>The counting loop of \<^verbatim>\<open>infer_process_and_checklist\<close>, with its counter.\<close>

fun count_matches :: "checklists \<Rightarrow> string list \<Rightarrow> nat \<Rightarrow> nat" where
  "count_matches CHECKLISTS [] matches = matches"
| "count_matches CHECKLISTS (t # ts) matches =
     (if t \<in> set (incorporation_list CHECKLISTS)
      then count_matches CHECKLISTS ts (matches + 1)
      else count_matches CHECKLISTS ts matches)"

text \<open>
  \<^verbatim>\<open>CHECKLISTS["Company Incorporation"]\<close> is only reached with two matches or more, so
  the key is present there and the subscript cannot raise.
\<close>

definition infer_process_and_checklist :: "checklists \<Rightarrow> string list \<Rightarrow> process_info" where
  "infer_process_and_checklist CHECKLISTS doc_types =
     (if count_matches CHECKLISTS doc_types 0 \<ge> 2
      then (let required = the (CHECKLISTS ''Company Incorporation'');
                missing = filter (\<lambda>d. d \<notin> set doc_types) required
            in \<lparr>process = ''Company Incorporation'',
                documents_uploaded = length doc_types,
                required_documents = Some (length required),
                missing_documents = missing\<rparr>)
      else \<lparr>process = ''Unknown'',
            documents_uploaded = length doc_types,
            required_documents = None,
            missing_documents = []\<rparr>)"

text \<open>
  The same count in the words of the specification: how many uploaded labels, each counted
  as often as it was uploaded, belong to the required list.
\<close>

definition uploaded_in_required :: "string list \<Rightarrow> string list \<Rightarrow> nat" where
  "uploaded_in_required required doc_types = length (filter (\<lambda>t. t \<in> set required) doc_types)"

section \<open>Documents (docx_utils.py)\<close>

text \<open>
  The document library is external. Of a loaded document the program uses the list of its
  body paragraphs, read afresh from the document at every access of \<^verbatim>\<open>doc.paragraphs\<close>; of a
  paragraph its runs, its text (the texts of its runs, concatenated), \<^verbatim>\<open>add_run\<close>, which
  appends a run, and \<^verbatim>\<open>insert_paragraph_before\<close>, which puts a new paragraph into the
  document just before this one (without a run when its text is empty).
\<close>

record run =
  run_text :: string
  italic :: "bool option"
  font_size :: "nat option"

type_synonym docx_paragraph = "run list"
type_synonym document = "docx_paragraph list"

definition para_text :: "docx_paragraph \<Rightarrow> string" where
  "para_text p = concat (map run_text p)"

text \<open>The loop of \<open>extract_structured_text\<close> over \<^verbatim>\<open>enumerate(doc.paragraphs)\<close>.\<close>

fun extract_from :: "nat \<Rightarrow> docx_paragraph list \<Rightarrow> (int \<times> string) list" where
  "extract_from i [] = []"
| "extract_from i (p # ps) =
     (let text = strip (para_text p)
      in if text \<noteq> [] then (int i, text) # extract_from (Suc i) ps
         else extract_from (Suc i) ps)"

definition extract_structured_text :: "document \<Rightarrow> (int \<times> string) list" where
  "extract_structured_text doc = extract_from 0 doc"

record annotation =
  paragraph_index :: json
  match_text :: "string option"
  comment :: string

text \<open>
  \<^verbatim>\<open>idx < 0\<close> on the value found under \<^verbatim>\<open>paragraph_index\<close>: an integer (a boolean is one)
  compares and can index the list of paragraphs; a float compares, but indexing with it
  raises \<^verbatim>\<open>TypeError\<close>; for anything else the comparison itself raises \<^verbatim>\<open>TypeError\<close>.
\<close>

fun index_value :: "json \<Rightarrow> int option" where
  "index_value (JInt i) = Some i"
| "index_value (JBool b) = Some (if b then 1 else 0)"
| "index_value _ = None"

definition truthy :: "string option \<Rightarrow> bool" where
  "truthy m = (case m of None \<Rightarrow> False | Some s \<Rightarrow> s \<noteq> [])"

definition comment_run :: "string \<Rightarrow> run" where
  "comment_run c = \<lparr>run_text = ''  [COMMENT: '' @ c @ '']'', italic = Some True, font_size = Some 9\<rparr>"

definition empty_run :: run where
  "empty_run = \<lparr>run_text = [], italic = None, font_size = None\<rparr>"

text \<open>
  What one annotation does to its paragraph: when no run holds the match text (or there is
  none) an empty run is added, then the comment run. Assigning a run's text to itself
  changes nothing.
\<close>

definition annotate_paragraph :: "annotation \<Rightarrow> docx_paragraph \<Rightarrow> docx_paragraph" where
  "annotate_paragraph ann para =
     (let found = (truthy (match_text ann) \<and>
                   list_ex (\<lambda>r. contains (the (match_text ann)) (run_text r)) para)
      in (if found then para else para @ [empty_run]) @ [comment_run (comment ann)])"

fun insert_comments :: "document \<Rightarrow> annotation list \<Rightarrow> exn + document" where
  "insert_comments doc [] = Inr doc"
| "insert_comments doc (ann # annotations) =
     (case paragraph_index ann of
        JFloat x \<Rightarrow>
          if x < 0 \<or> x \<ge> real (length doc) then insert_comments doc annotations
          else Inl (Raise ''TypeError'' [])
      | v \<Rightarrow>
          (case index_value v of
             None \<Rightarrow> Inl (Raise ''TypeError'' [])
           | Some idx \<Rightarrow>
               if idx < 0 \<or> idx \<ge> int (length doc) then insert_comments doc annotations
               else
                 (let para = annotate_paragraph ann (doc ! nat idx)
                  in if truthy (match_text ann)
                     then insert_comments (doc[nat idx := para]) annotations
                     else insert_comments
                            (take (nat idx) doc @ [[], para] @ drop (Suc (nat idx)) doc)
                            annotations)))"

text \<open>
  \<open>insert_comment_simulation\<close>: the document loaded from \<^verbatim>\<open>in_path\<close> goes in, and the
  document saved to \<^verbatim>\<open>out_path\<close> comes out.
\<close>

definition insert_comment_simulation :: "document \<Rightarrow> annotation list \<Rightarrow> exn + document" where
  "insert_comment_simulation doc annotations = insert_comments doc annotations"

section \<open>Orchestrator (app.py)\<close>





text \<open>
  \<^verbatim>\<open>str(v)\<close> inside the comment's format string. For a float, a list or a dictionary it is
  Python's \<^verbatim>\<open>repr\<close>, which is taken as given.
\<close>

fun py_str :: "(json \<Rightarrow> string) \<Rightarrow> json \<Rightarrow> string" where
  "py_str repr JNull = ''None''"
| "py_str repr (JBool b) = (if b then ''True'' else ''False'')"
| "py_str repr (JInt i) = str_int i"
| "py_str repr (JStr s) = s"
| "py_str repr v = repr v"

text \<open>
  What the module holds after import and what it reaches outside: the checklist table, the
  retrieval index (none when the reference folder is missing), the reasoning capability,
  the stored documents by path, and \<^verbatim>\<open>repr\<close>.
\<close>

record ('v, 'd) app_env =
  CHECKLISTS :: checklists
  rag_index :: "('v, 'd) rag_index option"
  llm :: llm_env
  files :: "string \<rightharpoonup> document"
  py_repr :: "json \<Rightarrow> string"

text \<open>The annotation that \<open>analyze_documents\<close> prepares from one issue.\<close>

definition annotation_of :: "(json \<Rightarrow> string) \<Rightarrow> (int \<times> string) list \<Rightarrow> pydict \<Rightarrow> annotation" where
  "annotation_of repr paras it =
     (let para_idx =
            (if dict_get it ''document_index_paragraph'' \<noteq> JNull
             then dict_get it ''document_index_paragraph''
             else if dict_get it ''document_paragraph_idx'' \<noteq> JNull
                  then dict_get it ''document_paragraph_idx''
                  else JNull);
          para_idx = (if para_idx = JNull
                      then JInt (if paras \<noteq> [] then int (length paras) - 1 else 0)
                      else para_idx)
      in \<lparr>paragraph_index = para_idx,
          match_text = None,
          comment = py_str repr (dict_get it ''issue'') @ '': '' @ py_str repr (dict_get it ''suggestion'')\<rparr>)"




record summary_entry =
  entry_file :: string
  entry_type :: string
  issues_found :: nat

record analysis_state =
  summary :: "summary_entry list"
  doc_types :: "string list"
  all_annotations :: "(string \<times> annotation list) list"
  all_issues :: "pydict list"
  events :: "event list"





section \<open>The analysis run (app.py)\<close>


section \<open>Sample inputs and notions of the specification\<close>

definition demo_checklists :: checklists where
  "demo_checklists =
     [''Company Incorporation'' \<mapsto>
        [''Articles of Association'', ''Memorandum of Association'',
         ''Incorporation Application Form'', ''UBO Declaration Form'',
         ''Register of Members and Directors'']]"

definition demo_doc :: document where
  "demo_doc =
     [[],
      [\<lparr>run_text = ''Hello'', italic = None, font_size = None\<rparr>],
      [\<lparr>run_text = ''  '', italic = None, font_size = None\<rparr>],
      [\<lparr>run_text = '' Wor'', italic = None, font_size = None\<rparr>,
       \<lparr>run_text = ''ld '', italic = None, font_size = None\<rparr>]]"

text \<open>
  Federal-courts phrasing, in the words of the specification: one of the three court phrases
  occurs in the text, whatever the case of its letters.
\<close>

definition contains_ignoring_case :: "string \<Rightarrow> string \<Rightarrow> bool" where
  "contains_ignoring_case phrase text = contains (lower phrase) (lower text)"

definition federal_phrasing :: "string \<Rightarrow> bool" where
  "federal_phrasing text =
     (contains_ignoring_case ''UAE Federal Courts'' text \<or>
      contains_ignoring_case ''Federal Courts of the UAE'' text \<or>
      contains_ignoring_case ''UAE Courts'' text)"

definition demo_paragraphs :: "(int \<times> string) list" where
  "demo_paragraphs = [(0, ''in UAE Federal Courts.''), (1, ''ADGM Courts'')]"

text \<open>
  A small index for the examples: the embedding of a text is its length, and the distance of
  two embeddings is their difference.
\<close>

definition new_index :: "(nat, nat) rag_index" where
  "new_index = \<lparr>model = length, l2 = (\<lambda>a b. (a - b) + (b - a)), fill = 0, index = None, texts = []\<rparr>"

definition demo_folder :: "(string \<times> string) list" where
  "demo_folder =
     [(''courts.TXT'', ''ADGM Courts have jurisdiction.\<newline>\<newline>  \<newline>\<newline>Governing law is ADGM law.''),
      (''notes.md'', ''not a reference text''),
      (''forms.txt'', ''Resolutions are signed by all directors.'')]"

definition demo_rag :: "(nat, nat) rag_index" where
  "demo_rag = new_index
     \<lparr>index := Some [43, 39, 52],
      texts := [''[courts.TXT] ADGM Courts have jurisdiction.'',
                ''[courts.TXT] Governing law is ADGM law.'',
                ''[forms.txt] Resolutions are signed by all directors.'']\<rparr>"

text \<open>
  A reply of the service as JSON text, the value \<^verbatim>\<open>json.loads\<close> gives for it, and
  \<^verbatim>\<open>json.loads\<close> on the replies used below (any other text is taken as not being JSON).
\<close>

definition quoted :: "string \<Rightarrow> string" where
  "quoted s = [CHR 0x22] @ s @ [CHR 0x22]"

definition demo_reply_text :: string where
  "demo_reply_text =
     ''[{'' @ quoted ''paragraph_index'' @ '': 99, '' @
     quoted ''issue'' @ '': '' @ quoted ''Discretionary wording'' @ '', '' @
     quoted ''severity'' @ '': '' @ quoted ''Medium'' @ '', '' @
     quoted ''suggestion'' @ '': '' @ quoted ''Use shall [source: courts.TXT]'' @ ''}]''"

definition demo_reply :: json where
  "demo_reply = JList [JObj [(''paragraph_index'', JInt 99),
                             (''issue'', JStr ''Discretionary wording''),
                             (''severity'', JStr ''Medium''),
                             (''suggestion'', JStr ''Use shall [source: courts.TXT]'')]]"

definition demo_loads :: "string \<Rightarrow> json option" where
  "demo_loads s =
     (if s = ''[]'' then Some (JList [])
      else if s = demo_reply_text then Some demo_reply
      else None)"


definition demo_llm :: llm_env where
  "demo_llm = \<lparr>OPENAI_API_KEY = Some ''sk-demo'',
                chat_completion = (\<lambda>prompt. Inr (demo_reply_text @ ''\<newline>'')),
                json_loads = demo_loads\<rparr>"

definition demo_review_paragraphs :: "(int \<times> string) list" where
  "demo_review_paragraphs =
     [(0, ''X may act''),
      (1, ''in ADGM''),
      (2, ''Signed by Y'')]"

definition text_run :: "string \<Rightarrow> run" where
  "text_run s = \<lparr>run_text = s, italic = None, font_size = None\<rparr>"


definition failing_llm :: llm_env where
  "failing_llm = \<lparr>OPENAI_API_KEY = Some ''sk-demo'',
                   chat_completion = (\<lambda>prompt. Inl (Raise ''Timeout'' ''Request timed out.'')),
                   json_loads = demo_loads\<rparr>"

text \<open>
  Names for the parts of one round of \<open>llm_review\<close>: its quick filter, the prompt it builds
  for a paragraph from the retrieved chunks, and the findings it takes from the reply.
\<close>

definition review_trigger :: "string \<Rightarrow> bool" where
  "review_trigger text =
     re_search (join ''|'' (AMBIGUOUS_TERMS @ FEDERAL_COURTS_PATTERNS @ SIGNATURE_PATTERNS)) text"

definition prompt_for :: "('v, 'd::linorder) rag_index \<Rightarrow> string \<Rightarrow> string \<Rightarrow> string" where
  "prompt_for rag doc_name text =
     (case retrieve rag text 3 of
        Inl e \<Rightarrow> []
      | Inr retrieved \<Rightarrow> review_prompt doc_name text (join [CHR 0x0A, CHR 0x0A] (map fst retrieved)))"

definition paragraph_findings ::
  "llm_env \<Rightarrow> ('v, 'd::linorder) rag_index \<Rightarrow> string \<Rightarrow> int \<Rightarrow> string \<Rightarrow> pydict list" where
  "paragraph_findings E rag doc_name idx text =
     (case call_llm E (prompt_for rag doc_name text) of
        Inl e \<Rightarrow> [call_failed_finding idx e]
      | Inr out \<Rightarrow>
          (case parse_reply E out idx of
             None \<Rightarrow> [non_json_finding idx out]
           | Some parsed \<Rightarrow> parsed))"





section \<open>Properties of process inference\<close>

lemma count_matches_filter:
  "count_matches C ts m = m + uploaded_in_required (incorporation_list C) ts"
  by (induction ts arbitrary: m) (auto simp: uploaded_in_required_def)

lemma count_matches_present:
  assumes "count_matches C ts 0 \<ge> 2"
  shows "C ''Company Incorporation'' = Some (incorporation_list C)"
proof (cases "C ''Company Incorporation''")
  case None
  then have "incorporation_list C = []" by (simp add: incorporation_list_def)
  then have "count_matches C ts 0 = 0"
    by (simp add: count_matches_filter uploaded_in_required_def)
  with assms show ?thesis by simp
next
  case (Some r)
  then show ?thesis by (simp add: incorporation_list_def)
qed

text \<open>
  C10. The uploaded labels are counted with multiplicity against the Company Incorporation
  list. With a count of two or more the result names that process, reports the length of the
  required list, and lists as missing exactly the required labels that no uploaded document
  carries (in the order of the required list). Otherwise the process is Unknown, there is no
  required count and the missing list is empty.
\<close>

theorem infer_process_spec:
  "(2 \<le> uploaded_in_required (incorporation_list C) ts \<longrightarrow>
      process (infer_process_and_checklist C ts) = ''Company Incorporation'' \<and>
      required_documents (infer_process_and_checklist C ts) = Some (length (incorporation_list C)) \<and>
      missing_documents (infer_process_and_checklist C ts) =
        filter (\<lambda>d. d \<notin> set ts) (incorporation_list C) \<and>
      set (missing_documents (infer_process_and_checklist C ts)) = set (incorporation_list C) - set ts) \<and>
   (uploaded_in_required (incorporation_list C) ts < 2 \<longrightarrow>
      process (infer_process_and_checklist C ts) = ''Unknown'' \<and>
      required_documents (infer_process_and_checklist C ts) = None \<and>
      missing_documents (infer_process_and_checklist C ts) = []) \<and>
   documents_uploaded (infer_process_and_checklist C ts) = length ts"
proof -
  let ?n = "uploaded_in_required (incorporation_list C) ts"
  have cnt: "count_matches C ts 0 = ?n"
    by (simp add: count_matches_filter)
  show ?thesis
  proof (cases "2 \<le> ?n")
    case True
    then have "count_matches C ts 0 \<ge> 2" using cnt by simp
    then have "C ''Company Incorporation'' = Some (incorporation_list C)"
      by (rule count_matches_present)
    with True cnt show ?thesis
      by (auto simp: infer_process_and_checklist_def Let_def)
  next
    case False
    with cnt show ?thesis
      by (simp add: infer_process_and_checklist_def)
  qed
qed

theorem infer_process_spec_witness:
  "uploaded_in_required (incorporation_list demo_checklists)
      [''Articles of Association'', ''Articles of Association''] = 2 \<and>
   process (infer_process_and_checklist demo_checklists
      [''Articles of Association'', ''Articles of Association'']) = ''Company Incorporation'' \<and>
   missing_documents (infer_process_and_checklist demo_checklists
      [''Articles of Association'', ''Articles of Association'']) =
     [''Memorandum of Association'', ''Incorporation Application Form'',
      ''UBO Declaration Form'', ''Register of Members and Directors''] \<and>
   uploaded_in_required (incorporation_list demo_checklists) [''Articles of Association''] = 1 \<and>
   process (infer_process_and_checklist demo_checklists [''Articles of Association'']) = ''Unknown'' \<and>
   required_documents (infer_process_and_checklist demo_checklists [''Articles of Association'']) = None"
  using infer_process_spec [of demo_checklists "[''Articles of Association'', ''Articles of Association'']"]
    infer_process_spec [of demo_checklists "[''Articles of Association'']"]
  by (simp add: uploaded_in_required_def incorporation_list_def demo_checklists_def)

section \<open>Properties of the paragraph extractor\<close>

lemma dropWhile_prefix_stable:
  assumes "u @ w = dropWhile P s" and "u \<noteq> []"
  shows "dropWhile P u = u"
proof -
  from assms have ne: "dropWhile P s \<noteq> []" by (metis Nil_is_append_conv)
  then have "\<not> P (hd (dropWhile P s))" by (rule hd_dropWhile)
  moreover from assms have "hd (dropWhile P s) = hd u" by (metis hd_append2)
  ultimately have "\<not> P (hd u)" by simp
  with assms(2) show ?thesis by (cases u) auto
qed

lemma strip_idem: "strip (strip s) = strip s"
proof -
  let ?t = "dropWhile is_space s"
  let ?u = "rev (dropWhile is_space (rev ?t))"
  have split: "?u @ rev (takeWhile is_space (rev ?t)) = ?t"
    by (metis rev_append rev_rev_ident takeWhile_dropWhile_id)
  have front: "dropWhile is_space ?u = ?u"
  proof (cases "?u = []")
    case True
    show ?thesis by (simp only: True dropWhile.simps)
  next
    case False
    with split show ?thesis by (rule dropWhile_prefix_stable)
  qed
  have "strip ?u = rev (dropWhile is_space (rev ?u))"
    unfolding strip_def front ..
  also have "\<dots> = ?u" by (simp add: dropWhile_idem)
  finally show ?thesis by (simp add: strip_def)
qed

lemma extract_from_enumerate:
  "extract_from k ps =
     map (\<lambda>(i, p). (int i, strip (para_text p)))
       (filter (\<lambda>(i, p). strip (para_text p) \<noteq> []) (enumerate k ps))"
  by (induction ps arbitrary: k) (auto simp: Let_def)

lemma extract_indices:
  "map fst (extract_from k ps) =
     map int (filter (\<lambda>i. strip (para_text (ps ! (i - k))) \<noteq> []) [k..<k + length ps])"
proof (induction ps arbitrary: k)
  case Nil
  then show ?case by simp
next
  case (Cons p ps)
  have "k < k + length (p # ps)" by simp
  then have "[k..<k + length (p # ps)] = k # [Suc k..<k + length (p # ps)]"
    by (rule upt_conv_Cons)
  then have "[k..<k + length (p # ps)] = k # [Suc k..<Suc k + length ps]"
    by simp
  moreover have "filter (\<lambda>i. strip (para_text ((p # ps) ! (i - k))) \<noteq> []) [Suc k..<Suc k + length ps]
      = filter (\<lambda>i. strip (para_text (ps ! (i - Suc k))) \<noteq> []) [Suc k..<Suc k + length ps]"
    by (rule filter_cong) (auto simp: nth_Cons')
  ultimately show ?case using Cons.IH [of "Suc k"] by (simp add: Let_def)
qed

lemma extract_from_elem:
  "(i, t) \<in> set (extract_from k ps) \<Longrightarrow>
     int k \<le> i \<and> nat i - k < length ps \<and> t = strip (para_text (ps ! (nat i - k))) \<and> t \<noteq> [] \<and>
     strip t = t"
  by (auto simp: extract_from_enumerate in_set_enumerate_eq strip_idem)

lemma extract_from_sorted: "sorted_wrt (<) (map fst (extract_from k ps))"
proof -
  have "sorted_wrt (<) (filter (\<lambda>i. strip (para_text (ps ! (i - k))) \<noteq> []) [k..<k + length ps])"
    by (rule sorted_wrt_filter) simp
  then show ?thesis
    unfolding extract_indices by (simp add: sorted_wrt_map)
qed

text \<open>
  C7. The extracted pairs come with strictly increasing indices; every index is the position
  of its paragraph in the document's own paragraph list, and its text is that paragraph's
  text stripped, which is not empty and has nothing left to strip; the indices are exactly
  the positions of the paragraphs whose stripped text is not empty, in document order.
\<close>

theorem extract_structured_text_spec:
  "sorted_wrt (<) (map fst (extract_structured_text doc)) \<and>
   (\<forall>(i, t) \<in> set (extract_structured_text doc).
      0 \<le> i \<and> nat i < length doc \<and> t = strip (para_text (doc ! nat i)) \<and> t \<noteq> [] \<and> strip t = t) \<and>
   map fst (extract_structured_text doc) =
     map int (filter (\<lambda>i. strip (para_text (doc ! i)) \<noteq> []) [0..<length doc])"
proof -
  have a: "sorted_wrt (<) (map fst (extract_structured_text doc))"
    unfolding extract_structured_text_def by (rule extract_from_sorted)
  have b: "\<forall>(i, t) \<in> set (extract_structured_text doc).
      0 \<le> i \<and> nat i < length doc \<and> t = strip (para_text (doc ! nat i)) \<and> t \<noteq> [] \<and> strip t = t"
    unfolding extract_structured_text_def
    using extract_from_elem [of _ _ 0 doc] by auto
  have c: "map fst (extract_structured_text doc) =
     map int (filter (\<lambda>i. strip (para_text (doc ! i)) \<noteq> []) [0..<length doc])"
    unfolding extract_structured_text_def using extract_indices [of 0 doc] by simp
  from a b c show ?thesis by blast
qed

lemma demo_extract: "extract_structured_text demo_doc = [(1, ''Hello''), (3, ''World'')]"
  by code_simp

theorem extract_structured_text_spec_witness:
  "extract_structured_text demo_doc = [(1, ''Hello''), (3, ''World'')] \<and>
   length demo_doc = 4 \<and>
   sorted_wrt (<) (map fst (extract_structured_text demo_doc)) \<and>
   map fst (extract_structured_text demo_doc) =
     map int (filter (\<lambda>i. strip (para_text (demo_doc ! i)) \<noteq> []) [0..<length demo_doc])"
  using extract_structured_text_spec [of demo_doc] demo_extract
  by (simp add: demo_doc_def)

section \<open>Properties of the pattern search\<close>

lemma search_from_here:
  "list_ex (\<lambda>p. matches_here p prev s) alts \<Longrightarrow> search_from alts prev s"
  by (cases s) auto

lemma search_from_alts:
  "search_from alts prev s \<longleftrightarrow> (\<exists>p \<in> set alts. search_from [p] prev s)"
  by (induction s arbitrary: prev) (auto simp: list_ex_iff)

lemma search_from_skip:
  assumes "\<And>prev'. list_ex (\<lambda>p. matches_here p prev' s) alts"
  shows "search_from alts prev (pre @ s)"
proof (induction pre arbitrary: prev)
  case Nil
  show ?case using assms [of prev] by (simp add: search_from_here)
next
  case (Cons c pre)
  then show ?case by simp
qed

lemma matches_literal:
  "matches_here (map Ch lit) prev (lit @ post)"
  by (induction lit arbitrary: prev) auto

lemma split_on_no_sep: "c \<notin> set p \<Longrightarrow> split_on c p = [p]"
  by (induction p) auto

lemma split_on_append:
  "c \<notin> set p \<Longrightarrow> split_on c (p @ c # rest) = p # split_on c rest"
  by (induction p) auto

lemma split_on_join:
  "ps \<noteq> [] \<Longrightarrow> \<forall>p \<in> set ps. c \<notin> set p \<Longrightarrow> split_on c (join [c] ps) = ps"
  by (induction "[c]" ps rule: join.induct) (auto simp: split_on_no_sep split_on_append)

lemma re_search_join:
  assumes "ps \<noteq> []" and "\<forall>p \<in> set ps. CHR ''|'' \<notin> set p"
  shows "re_search (join ''|'' ps) text \<longleftrightarrow> (\<exists>p \<in> set ps. re_search p text)"
proof -
  have "re_search (join ''|'' ps) text \<longleftrightarrow> search_from (map parse_atoms ps) None text"
    using assms by (simp add: re_search_def split_on_join)
  also have "\<dots> \<longleftrightarrow> (\<exists>p \<in> set ps. search_from [parse_atoms p] None text)"
    by (subst search_from_alts) auto
  also have "\<dots> \<longleftrightarrow> (\<exists>p \<in> set ps. re_search p text)"
    using assms(2) by (auto simp: re_search_def split_on_no_sep)
  finally show ?thesis .
qed

lemma federal_no_bar: "\<forall>p \<in> set FEDERAL_COURTS_PATTERNS. CHR ''|'' \<notin> set p"
  by (simp add: FEDERAL_COURTS_PATTERNS_def)

lemma ambiguous_no_bar: "\<forall>p \<in> set AMBIGUOUS_TERMS. CHR ''|'' \<notin> set p"
  by (simp add: AMBIGUOUS_TERMS_def)

lemma signature_no_bar: "\<forall>p \<in> set SIGNATURE_PATTERNS. CHR ''|'' \<notin> set p"
  by (simp add: SIGNATURE_PATTERNS_def)

lemma re_search_literal:
  assumes "CHR ''|'' \<notin> set lit" and "parse_atoms lit = map Ch lit"
  shows "re_search lit (pre @ lit @ post)"
proof -
  have "search_from [map Ch lit] None (pre @ lit @ post)"
    by (rule search_from_skip) (simp add: matches_literal)
  with assms show ?thesis
    by (simp add: re_search_def split_on_no_sep)
qed

lemma re_search_uae_federal:
  "re_search (join ''|'' FEDERAL_COURTS_PATTERNS) (pre @ ''UAE Federal Courts'' @ post)"
proof -
  have "re_search ''UAE Federal Courts'' (pre @ ''UAE Federal Courts'' @ post)"
    by (rule re_search_literal) simp_all
  moreover have "''UAE Federal Courts'' \<in> set FEDERAL_COURTS_PATTERNS"
    by (simp add: FEDERAL_COURTS_PATTERNS_def)
  moreover have "FEDERAL_COURTS_PATTERNS \<noteq> []"
    by (simp add: FEDERAL_COURTS_PATTERNS_def)
  ultimately show ?thesis
    using re_search_join [OF _ federal_no_bar] by blast
qed


lemma matches_literal_prefix:
  "matches_here (map Ch lit @ rest) prev s \<Longrightarrow> starts_with (lower lit) (lower s)"
proof (induction lit arbitrary: prev s)
  case Nil
  then show ?case by (simp add: lower_def)
next
  case (Cons c lit)
  then show ?case by (cases s) (auto simp: lower_def)
qed

lemma search_contains:
  assumes "\<And>prev s. matches_here p prev s \<Longrightarrow> starts_with needle (lower s)"
  shows "search_from [p] prev s \<Longrightarrow> contains needle (lower s)"
proof (induction s arbitrary: prev)
  case Nil
  then show ?case using assms [of prev "[]"] by (simp add: lower_def)
next
  case (Cons c s)
  then show ?case using assms [of prev "c # s"] by (auto simp: lower_def)
qed

lemma re_search_literal_contains:
  assumes "CHR ''|'' \<notin> set p" and "parse_atoms p = map Ch lit @ rest"
    and "re_search p text"
  shows "contains_ignoring_case lit text"
proof -
  from assms have "search_from [map Ch lit @ rest] None text"
    by (simp add: re_search_def split_on_no_sep)
  then show ?thesis
    unfolding contains_ignoring_case_def
    by (rule search_contains [rotated]) (rule matches_literal_prefix)
qed

lemma re_search_bounded_contains:
  assumes "CHR ''|'' \<notin> set p" and "parse_atoms p = WordB # map Ch lit @ rest"
    and "re_search p text"
  shows "contains_ignoring_case lit text"
proof -
  from assms have "search_from [WordB # map Ch lit @ rest] None text"
    by (simp add: re_search_def split_on_no_sep)
  then show ?thesis
    unfolding contains_ignoring_case_def
    by (rule search_contains [rotated]) (auto dest: matches_literal_prefix)
qed

lemma federal_match_phrasing:
  assumes "re_search (join ''|'' FEDERAL_COURTS_PATTERNS) text"
  shows "federal_phrasing text"
proof -
  have "FEDERAL_COURTS_PATTERNS \<noteq> []" by (simp add: FEDERAL_COURTS_PATTERNS_def)
  with assms have "\<exists>p \<in> set FEDERAL_COURTS_PATTERNS. re_search p text"
    using re_search_join [OF _ federal_no_bar] by blast
  then consider "re_search ''UAE Federal Courts'' text"
    | "re_search ''Federal Courts of the UAE'' text"
    | "re_search (wb @ ''UAE Courts'' @ wb) text"
    by (auto simp: FEDERAL_COURTS_PATTERNS_def)
  then show ?thesis
  proof cases
    case 1
    have "contains_ignoring_case ''UAE Federal Courts'' text"
      by (rule re_search_literal_contains [where rest = "[]", OF _ _ 1]) simp_all
    then show ?thesis by (simp add: federal_phrasing_def)
  next
    case 2
    have "contains_ignoring_case ''Federal Courts of the UAE'' text"
      by (rule re_search_literal_contains [where rest = "[]", OF _ _ 2]) simp_all
    then show ?thesis by (simp add: federal_phrasing_def)
  next
    case 3
    have "contains_ignoring_case ''UAE Courts'' text"
      by (rule re_search_bounded_contains [where rest = "[WordB]", OF _ _ 3]) simp_all
    then show ?thesis by (simp add: federal_phrasing_def)
  qed
qed

section \<open>Properties of the rule engine\<close>

lemma ambiguous_checks_elem:
  "f \<in> set (ambiguous_checks idx text pats) \<Longrightarrow> \<exists>pat. f = ambiguous_finding idx pat"
  by (induction pats) (auto split: if_splits)

lemma heuristic_checks_elem:
  "f \<in> set (heuristic_checks ps) \<Longrightarrow>
     (\<exists>j t. (j, t) \<in> set ps \<and> re_search (join ''|'' FEDERAL_COURTS_PATTERNS) t \<and> f = federal_finding j) \<or>
     (\<exists>j pat. f = ambiguous_finding j pat)"
proof (induction ps)
  case Nil
  then show ?case by simp
next
  case (Cons p ps)
  obtain idx body where p: "p = (idx, body)" by (cases p)
  from Cons.prems p consider
      "re_search (join ''|'' FEDERAL_COURTS_PATTERNS) body" "f = federal_finding idx"
    | "f \<in> set (ambiguous_checks idx body AMBIGUOUS_TERMS)"
    | "f \<in> set (heuristic_checks ps)"
    by (auto split: if_splits)
  then show ?case
  proof cases
    case 1
    with p show ?thesis by auto
  next
    case 2
    from ambiguous_checks_elem [OF 2] show ?thesis by blast
  next
    case 3
    with Cons.IH show ?thesis by auto
  qed
qed

lemma heuristic_checks_federal:
  "(idx, text) \<in> set ps \<Longrightarrow> re_search (join ''|'' FEDERAL_COURTS_PATTERNS) text \<Longrightarrow>
     federal_finding idx \<in> set (heuristic_checks ps)"
  by (induction ps) auto

lemma federal_finding_fields:
  "dict_get (federal_finding idx) ''severity'' = JStr ''High''"
  "dict_get (federal_finding idx) ''document_index_paragraph'' = JInt idx"
  "dict_get (federal_finding idx) ''issue'' = JStr ''References UAE Federal Courts instead of ADGM''"
  by (simp_all add: federal_finding_def dict_get_def)

lemma ambiguous_finding_fields:
  "dict_get (ambiguous_finding idx pat) ''issue'' \<noteq> JStr ''References UAE Federal Courts instead of ADGM''"
  by (simp add: ambiguous_finding_def dict_get_def)

text \<open>
  C8. A paragraph whose text contains "UAE Federal Courts" gives the rule engine's finding
  for a wrong jurisdiction, of severity High, under that paragraph's index. When no paragraph
  of an index has federal-courts phrasing (none of the three court phrases occurs in it,
  whatever the case of its letters), no finding under that index is the wrong-jurisdiction
  one; a paragraph reading "ADGM Courts" is such a paragraph.
\<close>

theorem federal_courts_finding:
  "((idx, pre @ ''UAE Federal Courts'' @ post) \<in> set paragraphs \<longrightarrow>
      federal_finding idx \<in> set (heuristic_checks paragraphs) \<and>
      dict_get (federal_finding idx) ''severity'' = JStr ''High'' \<and>
      dict_get (federal_finding idx) ''document_index_paragraph'' = JInt idx \<and>
      dict_get (federal_finding idx) ''issue'' = JStr ''References UAE Federal Courts instead of ADGM'') \<and>
   ((\<forall>text. (idx, text) \<in> set paragraphs \<longrightarrow> \<not> federal_phrasing text) \<longrightarrow>
      (\<forall>f \<in> set (heuristic_checks paragraphs).
         dict_get f ''document_index_paragraph'' = JInt idx \<longrightarrow>
         dict_get f ''issue'' \<noteq> JStr ''References UAE Federal Courts instead of ADGM''))"
proof (intro conjI impI ballI)
  assume "(idx, pre @ ''UAE Federal Courts'' @ post) \<in> set paragraphs"
  then show "federal_finding idx \<in> set (heuristic_checks paragraphs)"
    by (rule heuristic_checks_federal) (rule re_search_uae_federal)
next
  fix f
  assume none: "\<forall>text. (idx, text) \<in> set paragraphs \<longrightarrow> \<not> federal_phrasing text"
    and f: "f \<in> set (heuristic_checks paragraphs)"
    and at: "dict_get f ''document_index_paragraph'' = JInt idx"
  from heuristic_checks_elem [OF f]
  show "dict_get f ''issue'' \<noteq> JStr ''References UAE Federal Courts instead of ADGM''"
  proof (elim disjE exE conjE)
    fix j t
    assume jt: "(j, t) \<in> set paragraphs" "re_search (join ''|'' FEDERAL_COURTS_PATTERNS) t"
      and "f = federal_finding j"
    with at have "j = idx" by (simp add: federal_finding_fields)
    with jt none federal_match_phrasing show ?thesis by blast
  next
    fix j pat
    assume "f = ambiguous_finding j pat"
    then show ?thesis by (simp add: ambiguous_finding_fields)
  qed
qed (simp_all add: federal_finding_fields)

lemma demo_no_phrasing: "\<not> federal_phrasing ''ADGM Courts''"
  by code_simp

theorem federal_courts_finding_witness:
  "(0, ''in '' @ ''UAE Federal Courts'' @ ''.'') \<in> set demo_paragraphs \<and>
   federal_finding 0 \<in> set (heuristic_checks demo_paragraphs) \<and>
   dict_get (federal_finding 0) ''severity'' = JStr ''High'' \<and>
   (1, ''ADGM Courts'') \<in> set demo_paragraphs \<and>
   \<not> federal_phrasing ''ADGM Courts'' \<and>
   federal_finding 1 \<notin> set (heuristic_checks demo_paragraphs)"
proof -
  have "\<forall>text. (1, text) \<in> set demo_paragraphs \<longrightarrow> \<not> federal_phrasing text"
    using demo_no_phrasing by (simp add: demo_paragraphs_def)
  then have "\<forall>f \<in> set (heuristic_checks demo_paragraphs).
      dict_get f ''document_index_paragraph'' = JInt 1 \<longrightarrow>
      dict_get f ''issue'' \<noteq> JStr ''References UAE Federal Courts instead of ADGM''"
    using federal_courts_finding [of 1 "[]" "[]" demo_paragraphs] by blast
  then have "federal_finding 1 \<notin> set (heuristic_checks demo_paragraphs)"
    using federal_finding_fields [of 1] by blast
  moreover have "(0, ''in '' @ ''UAE Federal Courts'' @ ''.'') \<in> set demo_paragraphs"
    and "(1, ''ADGM Courts'') \<in> set demo_paragraphs"
    by (simp_all add: demo_paragraphs_def)
  ultimately show ?thesis
    using federal_courts_finding [of 0 "''in ''" "''.''" demo_paragraphs] demo_no_phrasing
    by blast
qed

section \<open>Properties of the retrieval index\<close>

lemma collect_hits_append:
  "collect_hits txts (xs @ ys) = collect_hits txts xs @ collect_hits txts ys"
  by (induction xs) auto

lemma collect_hits_valid:
  "\<forall>(i, d) \<in> set xs. 0 \<le> i \<and> i < int (length txts) \<Longrightarrow>
     collect_hits txts xs = map (\<lambda>(i, d). (txts ! nat i, d)) xs"
  by (induction xs) auto

lemma collect_hits_pad: "collect_hits txts (zip (replicate n (- 1)) ds) = []"
proof (induction n arbitrary: ds)
  case 0
  show ?case by simp
next
  case (Suc n)
  then show ?case by (cases ds) auto
qed

lemma scored_labels:
  "(i, d) \<in> set (zip (map int [0..<n]) ds) \<Longrightarrow> 0 \<le> i \<and> i < int n"
  by (auto dest!: set_zip_leftD)

lemma retrieve_ranked:
  assumes ix: "index self = Some vectors" and len: "length vectors = length (texts self)"
    and k: "0 < k"
  shows "retrieve self query k =
           Inr (map (\<lambda>(i, d). (texts self ! nat i, d))
                  (take (nat k)
                     (sort_key snd (zip (map int [0..<length vectors])
                                        (map (l2 self (model self query)) vectors)))))"
proof -
  let ?scored = "zip (map int [0..<length vectors]) (map (l2 self (model self query)) vectors)"
  let ?best = "take (nat k) (sort_key snd ?scored)"
  let ?pad = "nat k - length ?best"
  have valid: "\<forall>(i, d) \<in> set ?best. 0 \<le> i \<and> i < int (length (texts self))"
  proof -
    have "set ?best \<subseteq> set ?scored"
      using set_take_subset [of "nat k" "sort_key snd ?scored"] by simp
    then show ?thesis using scored_labels [of _ _ "length vectors"] len by fastforce
  qed
  have "zip (map fst ?best @ replicate ?pad (- 1)) (map snd ?best @ replicate ?pad (fill self))
          = ?best @ zip (replicate ?pad (- 1)) (replicate ?pad (fill self))"
    by (simp add: zip_map_fst_snd)
  then have "collect_hits (texts self)
               (zip (map fst ?best @ replicate ?pad (- 1)) (map snd ?best @ replicate ?pad (fill self)))
             = map (\<lambda>(i, d). (texts self ! nat i, d)) ?best"
    using collect_hits_valid [OF valid]
    by (simp only: collect_hits_append collect_hits_pad append_Nil2)
  with ix k show ?thesis
    by (simp add: retrieve_def index_search_def Let_def)
qed

lemma build_from_folder_built:
  assumes "build_from_folder self folder = Inr built"
  shows "\<exists>vectors. index built = Some vectors \<and> length vectors = length (texts built) \<and>
           texts built \<noteq> []"
  using assms by (auto simp: build_from_folder_def Let_def split: if_splits)

lemma ranked_hits:
  fixes metric :: "'v \<Rightarrow> 'd::linorder"
  assumes "hits = map (\<lambda>(i, d). (txts ! nat i, d)) (take m (sort_key snd (zip (map int [0..<n]) (map metric vs))))"
    and "length vs = n" and "length txts = n"
  shows "length hits = min m n" and "sorted (map snd hits)" and "set (map fst hits) \<subseteq> set txts"
proof -
  let ?sorted = "sort_key snd (zip (map int [0..<n]) (map metric vs))"
  show "length hits = min m n" using assms by simp
  have "map snd hits = take m (map snd ?sorted)"
    using assms(1) by (simp add: take_map split_def o_def)
  moreover have "sorted (map snd ?sorted)" by (rule sorted_sort_key)
  ultimately show "sorted (map snd hits)" by (simp add: sorted_wrt_take)
  show "set (map fst hits) \<subseteq> set txts"
  proof
    fix t assume "t \<in> set (map fst hits)"
    then obtain i d where "(i, d) \<in> set (take m ?sorted)" and t: "t = txts ! nat i"
      using assms(1) by auto
    then have "(i, d) \<in> set (zip (map int [0..<n]) (map metric vs))"
      using set_take_subset [of m ?sorted] by auto
    then have "0 \<le> i \<and> i < int n" by (rule scored_labels)
    then have "nat i < length txts" using assms(3) by auto
    with t show "t \<in> set txts" by simp
  qed
qed

text \<open>
  C9. On an index built from a folder, a query for \<open>k > 0\<close> returns its hits, at most \<open>k\<close>
  of them, in order of non-decreasing distance, each a chunk of the corpus; there are fewer
  than \<open>k\<close> only when the corpus has fewer than \<open>k\<close> chunks (there are \<open>min k n\<close> for a
  corpus of \<open>n\<close>); a \<open>k\<close> that is not positive is refused. On an index that was not built
  the call raises, so nothing is returned.
\<close>

theorem retrieve_spec:
  fixes self :: "('v, 'd::linorder) rag_index"
  shows
  "(build_from_folder self folder = Inr built \<and> 0 < k \<longrightarrow>
      (\<exists>hits. retrieve built query k = Inr hits \<and>
         length hits \<le> nat k \<and>
         sorted (map snd hits) \<and>
         (length hits < nat k \<longrightarrow> length (texts built) < nat k) \<and>
         length hits = min (nat k) (length (texts built)) \<and>
         set (map fst hits) \<subseteq> set (texts built))) \<and>
   (build_from_folder self folder = Inr built \<and> k \<le> 0 \<longrightarrow> (\<exists>e. retrieve built query k = Inl e)) \<and>
   (index self = None \<longrightarrow> (\<exists>e. retrieve self query k = Inl e))"
proof (intro conjI impI)
  assume a: "build_from_folder self folder = Inr built \<and> 0 < k"
  then obtain vectors where ix: "index built = Some vectors"
    and len: "length vectors = length (texts built)"
    using build_from_folder_built by blast
  let ?hits = "map (\<lambda>(i, d). (texts built ! nat i, d))
                  (take (nat k)
                     (sort_key snd (zip (map int [0..<length (texts built)])
                                        (map (l2 built (model built query)) vectors))))"
  have r: "retrieve built query k = Inr ?hits"
    using retrieve_ranked [OF ix len, of k query] a len by simp
  have h: "length ?hits = min (nat k) (length (texts built))" "sorted (map snd ?hits)"
    "set (map fst ?hits) \<subseteq> set (texts built)"
    by (rule ranked_hits [OF refl len refl])+
  from h(1) have "length ?hits \<le> nat k"
    and "length ?hits < nat k \<longrightarrow> length (texts built) < nat k" by auto
  with r h show "\<exists>hits. retrieve built query k = Inr hits \<and>
         length hits \<le> nat k \<and>
         sorted (map snd hits) \<and>
         (length hits < nat k \<longrightarrow> length (texts built) < nat k) \<and>
         length hits = min (nat k) (length (texts built)) \<and>
         set (map fst hits) \<subseteq> set (texts built)"
    by blast
next
  assume a: "build_from_folder self folder = Inr built \<and> k \<le> 0"
  then obtain vectors where "index built = Some vectors"
    using build_from_folder_built by blast
  with a show "\<exists>e. retrieve built query k = Inl e"
    by (simp add: retrieve_def index_search_def)
next
  assume "index self = None"
  then show "\<exists>e. retrieve self query k = Inl e"
    by (simp add: retrieve_def)
qed

lemma demo_folder_texts:
  "folder_texts demo_folder =
     [''[courts.TXT] ADGM Courts have jurisdiction.'',
      ''[courts.TXT] Governing law is ADGM law.'',
      ''[forms.txt] Resolutions are signed by all directors.'']"
  by code_simp

lemma demo_build: "build_from_folder new_index demo_folder = Inr demo_rag"
  by (simp add: build_from_folder_def demo_folder_texts demo_rag_def new_index_def)

lemma demo_retrieve:
  "retrieve demo_rag ''what law governs?'' 2 =
     Inr [(''[courts.TXT] Governing law is ADGM law.'', 22),
          (''[courts.TXT] ADGM Courts have jurisdiction.'', 26)]"
  "retrieve demo_rag ''what law governs?'' 5 =
     Inr [(''[courts.TXT] Governing law is ADGM law.'', 22),
          (''[courts.TXT] ADGM Courts have jurisdiction.'', 26),
          (''[forms.txt] Resolutions are signed by all directors.'', 35)]"
  by code_simp+

theorem retrieve_spec_witness:
  "build_from_folder new_index demo_folder = Inr demo_rag \<and>
   retrieve demo_rag ''what law governs?'' 2 =
     Inr [(''[courts.TXT] Governing law is ADGM law.'', 22),
          (''[courts.TXT] ADGM Courts have jurisdiction.'', 26)] \<and>
   retrieve demo_rag ''what law governs?'' 5 =
     Inr [(''[courts.TXT] Governing law is ADGM law.'', 22),
          (''[courts.TXT] ADGM Courts have jurisdiction.'', 26),
          (''[forms.txt] Resolutions are signed by all directors.'', 35)] \<and>
   length (texts demo_rag) = 3 \<and>
   index new_index = None \<and>
   (\<exists>e. retrieve new_index ''what law governs?'' 5 = Inl e)"
  using retrieve_spec [of new_index demo_folder demo_rag 2 "''what law governs?''"]
    retrieve_spec [of new_index demo_folder demo_rag 5 "''what law governs?''"]
    demo_build demo_retrieve
  by (simp add: demo_rag_def new_index_def)

section \<open>Properties of the grounded reviewer\<close>

lemma retrieve_three:
  "index rag = Some vectors \<Longrightarrow> \<exists>retrieved. retrieve rag text 3 = Inr retrieved"
  by (simp add: retrieve_def index_search_def Let_def)

lemma llm_review_loop_built:
  assumes "index rag = Some vectors"
  shows "llm_review_loop E ps rag doc_name issues trace =
           (Inr (issues @ concat (map (\<lambda>(idx, text). paragraph_findings E rag doc_name idx text)
                                    (filter (\<lambda>(idx, text). review_trigger text) ps))),
            trace @ map (\<lambda>(idx, text). LLMCall (prompt_for rag doc_name text))
                    (filter (\<lambda>(idx, text). review_trigger text) ps))"
proof (induction ps arbitrary: issues trace)
  case Nil
  show ?case by simp
next
  case (Cons p ps)
  obtain idx body where p: "p = (idx, body)" by (cases p)
  show ?case
  proof (cases "review_trigger body")
    case False
    then show ?thesis using Cons.IH p by (simp add: review_trigger_def)
  next
    case True
    obtain retrieved where r: "retrieve rag body 3 = Inr retrieved"
      using retrieve_three [OF assms] by blast
    then have pf: "prompt_for rag doc_name body =
        review_prompt doc_name body (join [CHR 0x0A, CHR 0x0A] (map fst retrieved))"
      by (simp add: prompt_for_def)
    have t: "re_search (join ''|'' (AMBIGUOUS_TERMS @ FEDERAL_COURTS_PATTERNS @ SIGNATURE_PATTERNS)) body"
      using True by (simp add: review_trigger_def)
    show ?thesis
      unfolding p llm_review_loop.simps
      by (simp only: t r if_True sum.case Let_def pf [symmetric])
         (simp add: True Cons.IH paragraph_findings_def split: sum.split option.split)
  qed
qed

lemma llm_review_built:
  assumes "index rag = Some vectors"
  shows "llm_review E ps rag doc_name =
           (Inr (concat (map (\<lambda>(idx, text). paragraph_findings E rag doc_name idx text)
                           (filter (\<lambda>(idx, text). review_trigger text) ps))),
            map (\<lambda>(idx, text). LLMCall (prompt_for rag doc_name text))
              (filter (\<lambda>(idx, text). review_trigger text) ps))"
  unfolding llm_review_def using llm_review_loop_built [OF assms, of E ps doc_name "[]" "[]"]
  by simp

lemma call_failed_fields:
  "dict_get (call_failed_finding idx e) ''document_paragraph_idx'' = JInt idx"
  "dict_get (call_failed_finding idx e) ''issue'' = JStr ''LLM call failed''"
  "dict_get (call_failed_finding idx e) ''severity'' = JStr ''Low''"
  "dict_get (call_failed_finding idx e) ''suggestion'' = JStr (str_exn e)"
  by (simp_all add: call_failed_finding_def dict_get_def)

lemma call_llm_raises:
  "isl (chat_completion E prompt) \<Longrightarrow> isl (call_llm E prompt)"
  by (cases "chat_completion E prompt") (auto simp: call_llm_def)

lemma paragraph_findings_raised:
  "isl (call_llm E (prompt_for rag doc_name text)) \<Longrightarrow>
     paragraph_findings E rag doc_name idx text =
       [call_failed_finding idx (projl (call_llm E (prompt_for rag doc_name text)))]"
  by (cases "call_llm E (prompt_for rag doc_name text)") (auto simp: paragraph_findings_def)

text \<open>
  C3. With a built index and a reasoning capability that raises on every call (\<open>call_llm\<close>
  raises for every prompt, as it does when the completion request raises for every prompt),
  the review returns normally; its findings are one per triggering paragraph, in the order
  of the paragraphs, each under that paragraph's index, of severity Low, with the issue
  "LLM call failed" and the raised exception's message as suggestion; and \<open>call_llm\<close> was
  tried for every triggering paragraph, the ones after a failure included.
\<close>

theorem llm_failure_findings:
  assumes "index rag = Some vectors" and "\<forall>prompt. isl (call_llm E prompt)"
  shows "llm_review E ps rag doc_name =
           (Inr (map (\<lambda>(idx, text).
                       call_failed_finding idx (projl (call_llm E (prompt_for rag doc_name text))))
                   (filter (\<lambda>(idx, text). review_trigger text) ps)),
            map (\<lambda>(idx, text). LLMCall (prompt_for rag doc_name text))
              (filter (\<lambda>(idx, text). review_trigger text) ps)) \<and>
         dict_get (call_failed_finding idx e) ''document_paragraph_idx'' = JInt idx \<and>
         dict_get (call_failed_finding idx e) ''issue'' = JStr ''LLM call failed'' \<and>
         dict_get (call_failed_finding idx e) ''severity'' = JStr ''Low'' \<and>
         dict_get (call_failed_finding idx e) ''suggestion'' = JStr (str_exn e)"
proof -
  have "concat (map (\<lambda>(idx, text). paragraph_findings E rag doc_name idx text) qs) =
        map (\<lambda>(idx, text). call_failed_finding idx (projl (call_llm E (prompt_for rag doc_name text)))) qs"
    for qs
    using assms(2) by (induction qs) (auto simp: paragraph_findings_raised)
  then show ?thesis
    by (simp add: llm_review_built [OF assms(1)] call_failed_fields)
qed

lemma demo_triggered:
  "filter (\<lambda>(idx, text). review_trigger text) demo_review_paragraphs =
     [(0, ''X may act''), (2, ''Signed by Y'')]"
  by code_simp

lemma failing_llm_raises:
  "call_llm failing_llm prompt = Inl (Raise ''Timeout'' ''Request timed out.'')"
  by (simp add: failing_llm_def call_llm_def)

theorem llm_failure_findings_witness:
  "index demo_rag = Some [43, 39, 52] \<and>
   isl (chat_completion failing_llm ''any prompt'') \<and>
   isl (call_llm failing_llm ''any prompt'') \<and>
   fst (llm_review failing_llm demo_review_paragraphs demo_rag ''Doc'') =
     Inr [call_failed_finding 0 (Raise ''Timeout'' ''Request timed out.''),
          call_failed_finding 2 (Raise ''Timeout'' ''Request timed out.'')] \<and>
   dict_get (call_failed_finding 2 (Raise ''Timeout'' ''Request timed out.'')) ''suggestion'' =
     JStr ''Request timed out.''"
  using llm_failure_findings [of demo_rag "[43, 39, 52]" failing_llm demo_review_paragraphs "''Doc''"
      2 "Raise ''Timeout'' ''Request timed out.''"]
    demo_triggered
  by (simp add: demo_rag_def new_index_def failing_llm_raises) (simp add: failing_llm_def)

lemma review_no_bar:
  "\<forall>p \<in> set (AMBIGUOUS_TERMS @ FEDERAL_COURTS_PATTERNS @ SIGNATURE_PATTERNS). CHR ''|'' \<notin> set p"
  using ambiguous_no_bar federal_no_bar signature_no_bar by auto

lemma review_trigger_any:
  "review_trigger text \<longleftrightarrow>
     (\<exists>p \<in> set (AMBIGUOUS_TERMS @ FEDERAL_COURTS_PATTERNS @ SIGNATURE_PATTERNS). re_search p text)"
proof -
  have "AMBIGUOUS_TERMS @ FEDERAL_COURTS_PATTERNS @ SIGNATURE_PATTERNS \<noteq> []"
    by (simp add: AMBIGUOUS_TERMS_def)
  then show ?thesis
    unfolding review_trigger_def by (rule re_search_join [OF _ review_no_bar])
qed

text \<open>
  C4, as amended. With a built index, \<open>call_llm\<close> is invoked once for each paragraph that
  matches at least one pattern of the ambiguous-language, federal-courts or signature table,
  in the order of the paragraphs, and for no other paragraph; the findings returned are
  those of these paragraphs. The table of domain-jurisdiction patterns is not part of the
  filter.
\<close>

theorem review_selection:
  assumes "index rag = Some vectors"
  shows "llm_review E ps rag doc_name =
           (Inr (concat (map (\<lambda>(idx, text). paragraph_findings E rag doc_name idx text)
                           (filter (\<lambda>(idx, text).
                              \<exists>p \<in> set (AMBIGUOUS_TERMS @ FEDERAL_COURTS_PATTERNS @ SIGNATURE_PATTERNS).
                                re_search p text) ps))),
            map (\<lambda>(idx, text). LLMCall (prompt_for rag doc_name text))
              (filter (\<lambda>(idx, text).
                 \<exists>p \<in> set (AMBIGUOUS_TERMS @ FEDERAL_COURTS_PATTERNS @ SIGNATURE_PATTERNS).
                   re_search p text) ps))"
  by (simp add: llm_review_built [OF assms] review_trigger_any)

lemma demo_selected:
  "filter (\<lambda>(idx, text).
       \<exists>p \<in> set (AMBIGUOUS_TERMS @ FEDERAL_COURTS_PATTERNS @ SIGNATURE_PATTERNS). re_search p text)
     demo_review_paragraphs =
     [(0, ''X may act''), (2, ''Signed by Y'')]"
  using demo_triggered by (simp only: review_trigger_any)

theorem review_selection_witness:
  "index demo_rag = Some [43, 39, 52] \<and>
   snd (llm_review demo_llm demo_review_paragraphs demo_rag ''Doc'') =
     [LLMCall (prompt_for demo_rag ''Doc'' ''X may act''),
      LLMCall (prompt_for demo_rag ''Doc'' ''Signed by Y'')]"
  using review_selection [of demo_rag "[43, 39, 52]" demo_llm demo_review_paragraphs "''Doc''"]
    demo_selected
  by (simp add: demo_rag_def new_index_def)

theorem review_selection_counterexample:
  "''ADGM'' \<in> set JURISDICTION_PATTERNS \<and>
   re_search ''ADGM'' ''in ADGM'' \<and>
   document_level_checks [(1, ''in ADGM'')] = [no_signature_finding] \<and>
   llm_review demo_llm [(1, ''in ADGM'')] demo_rag ''Doc'' = (Inr [], [])"
  by code_simp

lemma map_of_dict_set: "map_of (dict_set d k v) = (map_of d)(k \<mapsto> v)"
  by (induction d) auto

lemma dict_get_set:
  "dict_get (dict_set d k v) k' = (if k' = k then v else dict_get d k')"
  by (simp add: dict_get_def map_of_dict_set)

lemma attach_index_objects:
  "attach_index idx (map JObj objs) =
     Some (map (\<lambda>d. dict_set d ''document_paragraph_idx'' (JInt idx)) objs)"
  by (induction objs) auto

lemma paragraph_findings_parsed:
  assumes "call_llm E (prompt_for rag doc_name text) = Inr out"
    and "json_loads E out = Some (JList (map JObj objs))"
  shows "paragraph_findings E rag doc_name idx text =
           map (\<lambda>d. dict_set d ''document_paragraph_idx'' (JInt idx)) objs"
  using assms by (simp add: paragraph_findings_def parse_reply_def attach_index_objects)

lemma annotation_of_attached:
  assumes "dict_get d ''document_index_paragraph'' = JNull"
  shows "paragraph_index (annotation_of repr paras (dict_set d ''document_paragraph_idx'' (JInt idx)))
           = JInt idx"
  using assms by (simp add: annotation_of_def dict_get_set Let_def)

text \<open>
  C5, as amended. With a built index the findings of the review are those of its triggering
  paragraphs, in order. When the reply for a paragraph parses as a list of objects, the
  findings of that paragraph are these objects, each with the key
  \<open>document_paragraph_idx\<close> set to the paragraph's index, whatever the reply had under that
  key. A \<open>paragraph_index\<close> key of the reply is not overwritten: it stays in the finding as
  the reply gave it, as does every other key. The orchestrator reads the index of such a
  finding from \<open>document_paragraph_idx\<close> when the reply carried no
  \<open>document_index_paragraph\<close> of its own.
\<close>

theorem attached_index_spec:
  assumes "index rag = Some vectors"
  shows "fst (llm_review E ps rag doc_name) =
           Inr (concat (map (\<lambda>(idx, text). paragraph_findings E rag doc_name idx text)
                          (filter (\<lambda>(idx, text). review_trigger text) ps))) \<and>
         (call_llm E (prompt_for rag doc_name text) = Inr out \<and>
          json_loads E out = Some (JList (map JObj objs)) \<longrightarrow>
            paragraph_findings E rag doc_name idx text =
              map (\<lambda>d. dict_set d ''document_paragraph_idx'' (JInt idx)) objs \<and>
            (\<forall>d \<in> set objs.
               dict_get (dict_set d ''document_paragraph_idx'' (JInt idx)) ''document_paragraph_idx''
                 = JInt idx \<and>
               dict_get (dict_set d ''document_paragraph_idx'' (JInt idx)) ''paragraph_index''
                 = dict_get d ''paragraph_index'' \<and>
               (\<forall>k. k \<noteq> ''document_paragraph_idx'' \<longrightarrow>
                  dict_get (dict_set d ''document_paragraph_idx'' (JInt idx)) k = dict_get d k) \<and>
               (dict_get d ''document_index_paragraph'' = JNull \<longrightarrow>
                  paragraph_index
                    (annotation_of repr paras (dict_set d ''document_paragraph_idx'' (JInt idx)))
                    = JInt idx)))"
  by (simp add: llm_review_built [OF assms] paragraph_findings_parsed dict_get_set
      annotation_of_attached)

lemma demo_reply_stripped: "strip (demo_reply_text @ ''\<newline>'') = demo_reply_text"
  by code_simp

lemma demo_reply_not_empty_list: "demo_reply_text \<noteq> ''[]''"
  by (simp add: demo_reply_text_def quoted_def)

lemma demo_prompt_reply:
  "call_llm demo_llm prompt = Inr demo_reply_text"
  "json_loads demo_llm demo_reply_text =
     Some (JList (map JObj [[(''paragraph_index'', JInt 99),
                             (''issue'', JStr ''Discretionary wording''),
                             (''severity'', JStr ''Medium''),
                             (''suggestion'', JStr ''Use shall [source: courts.TXT]'')]]))"
  by (simp_all add: call_llm_def demo_llm_def demo_reply_stripped demo_loads_def demo_reply_def
      demo_reply_not_empty_list)

theorem attached_index_spec_witness:
  "index demo_rag = Some [43, 39, 52] \<and>
   call_llm demo_llm (prompt_for demo_rag ''Doc'' ''Signed by Y'') = Inr demo_reply_text \<and>
   paragraph_findings demo_llm demo_rag ''Doc'' 2 ''Signed by Y'' =
     [[(''paragraph_index'', JInt 99),
       (''issue'', JStr ''Discretionary wording''),
       (''severity'', JStr ''Medium''),
       (''suggestion'', JStr ''Use shall [source: courts.TXT]''),
       (''document_paragraph_idx'', JInt 2)]]"
  using attached_index_spec [of demo_rag "[43, 39, 52]" demo_llm _ "''Doc''" "''Signed by Y''"
      demo_reply_text "[[(''paragraph_index'', JInt 99),
                             (''issue'', JStr ''Discretionary wording''),
                             (''severity'', JStr ''Medium''),
                             (''suggestion'', JStr ''Use shall [source: courts.TXT]'')]]" 2]
    demo_prompt_reply
  by (simp add: demo_rag_def new_index_def)

theorem attached_index_counterexample:
  "fst (llm_review demo_llm [(2, ''Signed by Y'')] demo_rag ''Doc'') =
     Inr [[(''paragraph_index'', JInt 99),
           (''issue'', JStr ''Discretionary wording''),
           (''severity'', JStr ''Medium''),
           (''suggestion'', JStr ''Use shall [source: courts.TXT]''),
           (''document_paragraph_idx'', JInt 2)]] \<and>
   map (\<lambda>f. dict_get f ''paragraph_index'')
     (projr (fst (llm_review demo_llm [(2, ''Signed by Y'')] demo_rag ''Doc''))) = [JInt 99]"
  by code_simp

section \<open>Properties of the orchestrator\<close>















lemma annotation_of_document_level:
  assumes "dict_get it ''document_index_paragraph'' = JNull"
    and "dict_get it ''document_paragraph_idx'' = JNull"
  shows "paragraph_index (annotation_of repr paras it) =
           JInt (if paras \<noteq> [] then int (length paras) - 1 else 0)"
  using assms by (simp add: annotation_of_def Let_def)

text \<open>
  C1. A document whose paragraphs are an empty one, "Hello", a blank one and " World " has
  the extracted paragraphs 1 and 3. Its two document-level findings both get the annotation
  index 1, the last position of the extracted list, and not 3, the index of the last
  extracted paragraph.
\<close>

theorem document_level_annotation_index:
  "extract_structured_text demo_doc = [(1, ''Hello''), (3, ''World'')] \<and>
   document_level_checks (extract_structured_text demo_doc) =
     [no_signature_finding, no_jurisdiction_finding] \<and>
   map (\<lambda>it. paragraph_index (annotation_of (\<lambda>v. []) (extract_structured_text demo_doc) it))
     (document_level_checks (extract_structured_text demo_doc)) = [JInt 1, JInt 1] \<and>
   last (map fst (extract_structured_text demo_doc)) = 3"
  by code_simp

section \<open>Properties of the annotation writer\<close>

lemma insert_comments_single_valid:
  assumes "0 \<le> i" and "nat i < length doc"
  shows "insert_comment_simulation doc [\<lparr>paragraph_index = JInt i, match_text = None, comment = c\<rparr>] =
           Inr (take (nat i) doc @
                [[], doc ! nat i @ [empty_run, comment_run c]] @ drop (Suc (nat i)) doc)"
proof -
  from assms have "\<not> int (length doc) \<le> i" by linarith
  with assms show ?thesis
    by (simp add: insert_comment_simulation_def annotate_paragraph_def truthy_def)
qed

lemma insert_comments_single_out_of_range:
  assumes "i < 0 \<or> int (length doc) \<le> i"
  shows "insert_comment_simulation doc [\<lparr>paragraph_index = JInt i, match_text = m, comment = c\<rparr>] =
           Inr doc"
  using assms by (auto simp: insert_comment_simulation_def)

text \<open>
  C2. Two paragraphs "A" and "B" with one annotation for each: the first annotation puts an
  empty paragraph before "A", so the second one, addressed to paragraph 1, finds "A" there
  once more and "B" stays without its comment. With the one paragraph "A" alone, the
  annotation for index 1, which is out of range for the document, is written as well.
\<close>

theorem insert_comment_shift:
  "map_sum id (map para_text)
     (insert_comment_simulation [[text_run ''A''], [text_run ''B'']]
        [\<lparr>paragraph_index = JInt 0, match_text = None, comment = ''x''\<rparr>,
         \<lparr>paragraph_index = JInt 1, match_text = None, comment = ''y''\<rparr>]) =
     Inr [[], [], ''A  [COMMENT: x]  [COMMENT: y]'', ''B''] \<and>
   map_sum id (map para_text)
     (insert_comment_simulation [[text_run ''A'']]
        [\<lparr>paragraph_index = JInt 0, match_text = None, comment = ''x''\<rparr>,
         \<lparr>paragraph_index = JInt 1, match_text = None, comment = ''y''\<rparr>]) =
     Inr [[], [], ''A  [COMMENT: x]  [COMMENT: y]'']"
  by code_simp

end
